theory Spec2Isabelle
  imports Main "HOL-Library.Word" "HOL-Library.Monad_Syntax"
begin

unbundle bit_operations_syntax

section \<open>The S32K1xx program-memory driver (arch/arm/src/s32k1xx/s32k1xx_progmem.c)\<close>

text \<open>
  The driver runs on a 32-bit ARM core: \<open>size_t\<close> and \<open>uint32_t\<close> are 32-bit words whose
  arithmetic wraps, \<open>uint8_t\<close> is a byte.  A function that returns \<open>ssize_t\<close> returns either
  a negated \<open>errno\<close> value or a count; the model keeps the two apart: \<open>Inl e\<close> is the return
  of \<open>-e\<close>, \<open>Inr v\<close> the return of the value \<open>v\<close>.
\<close>

type_synonym uint8_t = "8 word"
type_synonym uint32_t = "32 word"
type_synonym size_t = "32 word"

datatype errno = EINVAL | EFAULT | EIO

type_synonym ssize_t = "errno + 32 word"

subsection \<open>Constants of the absent headers\<close>

text \<open>
  The register addresses, command codes and status bits come from
  \<open>hardware/s32k1xx_ftfc.h\<close>, the geometry from \<open>s32k1xx_progmem.h\<close>.  Neither header is
  part of the sources, so both are parameters of every function below.  The two
  \<open>#ifdef\<close> switches of the driver are fields of the geometry record.
\<close>

record ftfc =
  S32K1XX_FTFC_BASE :: uint32_t
  S32K1XX_FTFC_FSTAT :: uint32_t
  S32K1XX_FTFC_FCCOB0 :: uint32_t
  S32K1XX_FTFC_FCCOB1 :: uint32_t
  S32K1XX_FTFC_FCCOB2 :: uint32_t
  S32K1XX_FTFC_FCCOB3 :: uint32_t
  S32K1XX_FTFC_FCCOB4 :: uint32_t
  S32K1XX_FTFC_FCCOB5 :: uint32_t
  S32K1XX_FTFC_FCCOB6 :: uint32_t
  S32K1XX_FTFC_ERASE_SECTOR :: uint8_t
  S32K1XX_FTFC_VERIFY_SECTION :: uint8_t
  S32K1XX_FTFC_PROGRAM_PHRASE :: uint8_t
  S32K1XX_FTFC_PROGRAM_CHECK :: uint8_t
  FTTC_FSTAT_CCIF :: uint8_t
  FTTC_FSTAT_MGSTAT0 :: uint8_t
  FTTC_FSTAT_FPVIOL :: uint8_t
  FTTC_FSTAT_ACCERR :: uint8_t
  FTTC_FSTAT_RDCOLERR :: uint8_t

record progmem =
  S32K1XX_PROGMEM_START_ADDR :: size_t
  S32K1XX_PROGMEM_PAGE_SIZE :: size_t
  S32K1XX_PROGMEM_BLOCK_SECTOR_SIZE :: size_t
  S32K1XX_PROGMEM_PAGE_COUNT :: size_t
  S32K1XX_PROGMEM_SECTOR_COUNT :: size_t
  S32K1XX_PROGMEM_DFLASH_WRITE_UNIT_SIZE :: size_t
  FTFC_VERIFY_CHECK :: bool
  SMART_FS_DOUBLE_WRITE_WORKAROUND :: bool

subsection \<open>The hardware access port\<close>

text \<open>
  The driver sees the controller only through single register accesses.  A \<open>port\<close> holds
  \<open>reads\<close>, the values the status register will show on the coming reads (whatever the
  controller does, the driver's run is a function of that sequence), and \<open>trace\<close>, every
  register access made so far, oldest first.  A read with no value left has no result:
  the run had not returned when the observation ended, which is also how a busy-wait on
  a controller that never completes shows.
\<close>

datatype event = Rd uint32_t uint8_t | Wr uint32_t uint8_t

record port =
  reads :: "uint8_t list"
  trace :: "event list"

definition getreg8 :: "uint32_t \<Rightarrow> port \<Rightarrow> (uint8_t \<times> port) option" where
  "getreg8 a s =
     (case reads s of
        [] \<Rightarrow> None
      | v # vs \<Rightarrow> Some (v, s\<lparr>reads := vs, trace := trace s @ [Rd a v]\<rparr>))"

definition putreg8 :: "uint8_t \<Rightarrow> uint32_t \<Rightarrow> port \<Rightarrow> port" where
  "putreg8 v a s = s\<lparr>trace := trace s @ [Wr a v]\<rparr>"

text \<open>Ordinary memory, as the CPU reads it through a pointer: the caller's buffer and
  the memory-mapped flash.\<close>

type_synonym memory = "uint32_t \<Rightarrow> uint8_t"

text \<open>\<open>*(uint32_t *)a\<close> on the little-endian core.\<close>

definition load32 :: "memory \<Rightarrow> uint32_t \<Rightarrow> uint32_t" where
  "load32 mem a =
     ucast (mem a) OR push_bit 8 (ucast (mem (a + 1)))
       OR push_bit 16 (ucast (mem (a + 2))) OR push_bit 24 (ucast (mem (a + 3)))"

text \<open>\<open>union fccob_flash_addr\<close>: the three low bytes of the little-endian \<open>addr\<close>;
  \<open>pad\<close>, the top byte, is never used.\<close>

definition fccob3 :: "uint32_t \<Rightarrow> uint8_t" where
  "fccob3 addr = ucast addr"

definition fccob2 :: "uint32_t \<Rightarrow> uint8_t" where
  "fccob2 addr = ucast (drop_bit 8 addr)"

definition fccob1 :: "uint32_t \<Rightarrow> uint8_t" where
  "fccob1 addr = ucast (drop_bit 16 addr)"

subsection \<open>Private functions\<close>

function wait_ftfc_ready :: "ftfc \<Rightarrow> port \<Rightarrow> port option" where
  "wait_ftfc_ready hw s =
     do {
       (v, s') \<leftarrow> getreg8 (S32K1XX_FTFC_FSTAT hw) s;
       if v AND FTTC_FSTAT_CCIF hw = 0 then wait_ftfc_ready hw s' else Some s'
     }"
  by pat_completeness auto
termination
  by (relation "measure (\<lambda>(hw, s). length (reads s))")
     (auto simp: getreg8_def split: list.splits)

text \<open>The mask \<open>FTTC_FSTAT_MGSTAT0 | FTTC_FSTAT_FPVIOL | FTTC_FSTAT_ACCERR |
  FTTC_FSTAT_RDCOLERR\<close> that the source tests in five places.\<close>

definition error_mask :: "ftfc \<Rightarrow> uint8_t" where
  "error_mask hw =
     FTTC_FSTAT_MGSTAT0 hw OR FTTC_FSTAT_FPVIOL hw OR FTTC_FSTAT_ACCERR hw
       OR FTTC_FSTAT_RDCOLERR hw"

definition execute_ftfc_command :: "ftfc \<Rightarrow> port \<Rightarrow> (uint32_t \<times> port) option" where
  "execute_ftfc_command hw s =
     do {
       (regval, s1) \<leftarrow> getreg8 (S32K1XX_FTFC_FSTAT hw) s;
       let regval = regval OR FTTC_FSTAT_CCIF hw;
       let s2 = putreg8 regval (S32K1XX_FTFC_FSTAT hw) s1;
       s3 \<leftarrow> wait_ftfc_ready hw s2;
       (v, s4) \<leftarrow> getreg8 (S32K1XX_FTFC_FSTAT hw) s3;
       let retval = (ucast v :: uint32_t);
       if retval AND ucast (error_mask hw) \<noteq> 0 then Some (retval, s4)
       else Some (retval, s4)
     }"

subsection \<open>Geometry\<close>

definition up_progmem_neraseblocks :: "progmem \<Rightarrow> size_t" where
  "up_progmem_neraseblocks g = S32K1XX_PROGMEM_SECTOR_COUNT g"

definition up_progmem_isuniform :: bool where
  "up_progmem_isuniform = True"

definition up_progmem_pagesize :: "progmem \<Rightarrow> size_t \<Rightarrow> size_t" where
  "up_progmem_pagesize g page = S32K1XX_PROGMEM_PAGE_SIZE g"

definition up_progmem_erasesize :: "progmem \<Rightarrow> size_t \<Rightarrow> size_t" where
  "up_progmem_erasesize g block = S32K1XX_PROGMEM_BLOCK_SECTOR_SIZE g"

definition up_progmem_getpage :: "progmem \<Rightarrow> size_t \<Rightarrow> size_t" where
  "up_progmem_getpage g addr =
     (let addr = (if addr \<ge> S32K1XX_PROGMEM_START_ADDR g
                  then addr - S32K1XX_PROGMEM_START_ADDR g else addr)
      in addr div S32K1XX_PROGMEM_PAGE_SIZE g)"

definition up_progmem_getaddress :: "progmem \<Rightarrow> size_t \<Rightarrow> size_t" where
  "up_progmem_getaddress g page =
     S32K1XX_PROGMEM_START_ADDR g + page * S32K1XX_PROGMEM_PAGE_SIZE g"

subsection \<open>Erase\<close>

definition up_progmem_eraseblock :: "progmem \<Rightarrow> ftfc \<Rightarrow> size_t \<Rightarrow> port \<Rightarrow> (ssize_t \<times> port) option" where
  "up_progmem_eraseblock g hw block s =
     do {
       let dest = block * S32K1XX_PROGMEM_BLOCK_SECTOR_SIZE g + 0x800000
                    - S32K1XX_PROGMEM_START_ADDR g;
       s \<leftarrow> wait_ftfc_ready hw s;
       let s = putreg8 (FTTC_FSTAT_FPVIOL hw OR FTTC_FSTAT_ACCERR hw OR FTTC_FSTAT_RDCOLERR hw)
                 (S32K1XX_FTFC_FSTAT hw) s;
       let s = putreg8 (S32K1XX_FTFC_ERASE_SECTOR hw) (S32K1XX_FTFC_FCCOB0 hw) s;
       let s = putreg8 (fccob1 dest) (S32K1XX_FTFC_FCCOB1 hw) s;
       let s = putreg8 (fccob2 dest) (S32K1XX_FTFC_FCCOB2 hw) s;
       let s = putreg8 (fccob3 dest) (S32K1XX_FTFC_FCCOB3 hw) s;
       (st, s) \<leftarrow> execute_ftfc_command hw s;
       if st AND ucast (error_mask hw) \<noteq> 0 then Some (Inl EIO, s)
       else if FTFC_VERIFY_CHECK g then
         do {
           s \<leftarrow> wait_ftfc_ready hw s;
           let s = putreg8 (FTTC_FSTAT_FPVIOL hw OR FTTC_FSTAT_ACCERR hw OR FTTC_FSTAT_RDCOLERR hw)
                     (S32K1XX_FTFC_FSTAT hw) s;
           let s = putreg8 (S32K1XX_FTFC_VERIFY_SECTION hw) (S32K1XX_FTFC_FCCOB0 hw) s;
           let s = putreg8 (fccob1 dest) (S32K1XX_FTFC_FCCOB1 hw) s;
           let s = putreg8 (fccob2 dest) (S32K1XX_FTFC_FCCOB2 hw) s;
           let s = putreg8 (fccob3 dest) (S32K1XX_FTFC_FCCOB3 hw) s;
           let s = putreg8 1 (S32K1XX_FTFC_FCCOB4 hw) s;
           let s = putreg8 0 (S32K1XX_FTFC_FCCOB5 hw) s;
           let s = putreg8 1 (S32K1XX_FTFC_FCCOB6 hw) s;
           (st, s) \<leftarrow> execute_ftfc_command hw s;
           if st AND ucast (error_mask hw) \<noteq> 0 then Some (Inl EIO, s)
           else Some (Inr (S32K1XX_PROGMEM_BLOCK_SECTOR_SIZE g), s)
         }
       else Some (Inr (S32K1XX_PROGMEM_BLOCK_SECTOR_SIZE g), s)
     }"

subsection \<open>Erased check\<close>

text \<open>The scan loop of \<open>up_progmem_ispageerased\<close>; the result is the value of \<open>i\<close> when
  the loop is left.\<close>

function erased_scan :: "progmem \<Rightarrow> memory \<Rightarrow> uint32_t \<Rightarrow> nat \<Rightarrow> nat" where
  "erased_scan g mem p i =
     (if i < unat (S32K1XX_PROGMEM_PAGE_SIZE g)
      then (if mem (p + of_nat i) \<noteq> 0xff then i else erased_scan g mem p (i + 1))
      else i)"
  by pat_completeness auto
termination
  by (relation "measure (\<lambda>(g, mem, p, i). unat (S32K1XX_PROGMEM_PAGE_SIZE g) - i)") auto

definition up_progmem_ispageerased :: "progmem \<Rightarrow> memory \<Rightarrow> size_t \<Rightarrow> ssize_t" where
  "up_progmem_ispageerased g mem page =
     (if page \<ge> S32K1XX_PROGMEM_PAGE_COUNT g then Inl EFAULT
      else
        let p = up_progmem_getaddress g page;
            i = erased_scan g mem p 0
        in Inr (S32K1XX_PROGMEM_PAGE_SIZE g - of_nat i))"

subsection \<open>Program\<close>

text \<open>The payload loop \<open>for (j = 0; j < UNIT; j++) *(uint8_t *)(S32K1XX_FTFC_BASE + j + off)
  = src[j]\<close>: one register write per byte, in the order of \<open>j\<close>; \<open>off\<close> is \<open>0x8\<close> in the
  program pass and \<open>0xc\<close> in the verify pass.\<close>

definition load_payload :: "progmem \<Rightarrow> ftfc \<Rightarrow> memory \<Rightarrow> uint32_t \<Rightarrow> uint32_t \<Rightarrow> port \<Rightarrow> port" where
  "load_payload g hw mem off src s =
     fold (\<lambda>j s. putreg8 (mem (src + of_nat j)) (S32K1XX_FTFC_BASE hw + of_nat j + off) s)
       [0 ..< unat (S32K1XX_PROGMEM_DFLASH_WRITE_UNIT_SIZE g)] s"

text \<open>The first loop of \<open>up_progmem_write\<close>, entered at the loop test with the current
  \<open>i\<close>, \<open>dest.addr\<close> and \<open>src\<close>.  \<open>Some EIO\<close> is the \<open>return -EIO\<close> inside the loop,
  \<open>None\<close> is leaving the loop at its test.\<close>

function program_loop ::
  "progmem \<Rightarrow> ftfc \<Rightarrow> memory \<Rightarrow> size_t \<Rightarrow> uint32_t \<Rightarrow> uint32_t \<Rightarrow> uint32_t \<Rightarrow> port
     \<Rightarrow> (errno option \<times> port) option" where
  "program_loop g hw mem count i dest src s =
     (if i < count div S32K1XX_PROGMEM_DFLASH_WRITE_UNIT_SIZE g then
        do {
          s \<leftarrow> wait_ftfc_ready hw s;
          let s = putreg8 (FTTC_FSTAT_FPVIOL hw OR FTTC_FSTAT_ACCERR hw OR FTTC_FSTAT_RDCOLERR hw)
                    (S32K1XX_FTFC_FSTAT hw) s;
          let s = putreg8 (S32K1XX_FTFC_PROGRAM_PHRASE hw) (S32K1XX_FTFC_FCCOB0 hw) s;
          let s = putreg8 (fccob1 dest) (S32K1XX_FTFC_FCCOB1 hw) s;
          let s = putreg8 (fccob2 dest) (S32K1XX_FTFC_FCCOB2 hw) s;
          let s = putreg8 (fccob3 dest) (S32K1XX_FTFC_FCCOB3 hw) s;
          let s = load_payload g hw mem 0x8 src s;
          (st, s) \<leftarrow> execute_ftfc_command hw s;
          if st AND ucast (error_mask hw) \<noteq> 0 then Some (Some EIO, s)
          else program_loop g hw mem count (i + 1)
                 (dest + S32K1XX_PROGMEM_DFLASH_WRITE_UNIT_SIZE g)
                 (src + S32K1XX_PROGMEM_DFLASH_WRITE_UNIT_SIZE g) s
        }
      else Some (None, s))"
  by pat_completeness auto
termination
proof (relation "measure (\<lambda>(g, hw, mem, count, i, dest, src, s).
          unat (count div S32K1XX_PROGMEM_DFLASH_WRITE_UNIT_SIZE g) - unat i)", goal_cases)
  case 1
  show ?case by simp
next
  case (2 g hw mem count i dest src s)
  have "unat n - unat (i + 1) < unat n - unat i" if "i < n" for n
    using that by unat_arith
  with \<open>i < count div S32K1XX_PROGMEM_DFLASH_WRITE_UNIT_SIZE g\<close> show ?case
    by simp
qed

text \<open>The second loop, compiled in by \<open>FTFC_VERIFY_CHECK\<close>.  \<open>Some count\<close> is the
  \<open>return count\<close> inside the loop, \<open>None\<close> is leaving the loop at its test.\<close>

function verify_loop ::
  "progmem \<Rightarrow> ftfc \<Rightarrow> memory \<Rightarrow> size_t \<Rightarrow> uint32_t \<Rightarrow> uint32_t \<Rightarrow> uint32_t \<Rightarrow> port
     \<Rightarrow> (size_t option \<times> port) option" where
  "verify_loop g hw mem count i dest src s =
     (if i < count div S32K1XX_PROGMEM_DFLASH_WRITE_UNIT_SIZE g then
        do {
          s \<leftarrow> wait_ftfc_ready hw s;
          let s = putreg8 (FTTC_FSTAT_FPVIOL hw OR FTTC_FSTAT_ACCERR hw OR FTTC_FSTAT_RDCOLERR hw)
                    (S32K1XX_FTFC_FSTAT hw) s;
          let s = putreg8 (S32K1XX_FTFC_PROGRAM_CHECK hw) (S32K1XX_FTFC_FCCOB0 hw) s;
          let s = putreg8 (fccob1 dest) (S32K1XX_FTFC_FCCOB1 hw) s;
          let s = putreg8 (fccob2 dest) (S32K1XX_FTFC_FCCOB2 hw) s;
          let s = putreg8 (fccob3 dest) (S32K1XX_FTFC_FCCOB3 hw) s;
          let s = putreg8 1 (S32K1XX_FTFC_FCCOB4 hw) s;
          let s = load_payload g hw mem 0xc src s;
          (st, s) \<leftarrow> execute_ftfc_command hw s;
          if st AND ucast (error_mask hw) \<noteq> 0 then Some (Some count, s)
          else verify_loop g hw mem count (i + 1)
                 (dest + S32K1XX_PROGMEM_DFLASH_WRITE_UNIT_SIZE g)
                 (src + S32K1XX_PROGMEM_DFLASH_WRITE_UNIT_SIZE g) s
        }
      else Some (None, s))"
  by pat_completeness auto
termination
proof (relation "measure (\<lambda>(g, hw, mem, count, i, dest, src, s).
          unat (count div S32K1XX_PROGMEM_DFLASH_WRITE_UNIT_SIZE g) - unat i)", goal_cases)
  case 1
  show ?case by simp
next
  case (2 g hw mem count i dest src s)
  have "unat n - unat (i + 1) < unat n - unat i" if "i < n" for n
    using that by unat_arith
  with \<open>i < count div S32K1XX_PROGMEM_DFLASH_WRITE_UNIT_SIZE g\<close> show ?case
    by simp
qed

definition up_progmem_write ::
  "progmem \<Rightarrow> ftfc \<Rightarrow> memory \<Rightarrow> size_t \<Rightarrow> uint32_t \<Rightarrow> size_t \<Rightarrow> port \<Rightarrow> (ssize_t \<times> port) option" where
  "up_progmem_write g hw mem addr buf count s =
     (let addr = (if addr \<ge> S32K1XX_PROGMEM_START_ADDR g
                  then addr - S32K1XX_PROGMEM_START_ADDR g else addr)
      in
        if count mod S32K1XX_PROGMEM_DFLASH_WRITE_UNIT_SIZE g \<noteq> 0 then Some (Inl EINVAL, s)
        else if SMART_FS_DOUBLE_WRITE_WORKAROUND g
                \<and> load32 mem addr = load32 mem buf
                \<and> load32 mem addr + 4 = load32 mem buf + 4 then Some (Inr count, s)
        else
          do {
            (r, s) \<leftarrow> program_loop g hw mem count 0 (addr + 0x800000) buf s;
            case r of
              Some e \<Rightarrow> Some (Inl e, s)
            | None \<Rightarrow>
                if FTFC_VERIFY_CHECK g then
                  do {
                    (r, s) \<leftarrow> verify_loop g hw mem count 0 (addr + 0x800000) buf s;
                    case r of
                      Some c \<Rightarrow> Some (Inr c, s)
                    | None \<Rightarrow> Some (Inr count, s)
                  }
                else Some (Inr count, s)
          })"

section \<open>Notions used to state the properties\<close>

subsection \<open>What the status register shows during one command\<close>

text \<open>
  Every command of the driver reads the status register in the same pattern: it polls
  until the completion flag is set (\<open>pre_busy\<close>, then \<open>pre_ready\<close>), reads the register
  once to launch (\<open>launch_read\<close>), polls again (\<open>post_busy\<close>, then \<open>post_ready\<close>) and reads
  the \<open>status\<close> that decides the outcome.
\<close>

datatype run = Run (pre_busy: "uint8_t list") (pre_ready: uint8_t) (launch_read: uint8_t)
  (post_busy: "uint8_t list") (post_ready: uint8_t) (status: uint8_t)

definition run_reads :: "run \<Rightarrow> uint8_t list" where
  "run_reads r =
     pre_busy r @ [pre_ready r] @ [launch_read r] @ post_busy r @ [post_ready r] @ [status r]"

definition busy :: "ftfc \<Rightarrow> uint8_t \<Rightarrow> bool" where
  "busy hw v = (v AND FTTC_FSTAT_CCIF hw = 0)"

definition run_ok :: "ftfc \<Rightarrow> run \<Rightarrow> bool" where
  "run_ok hw r =
     (list_all (busy hw) (pre_busy r) \<and> \<not> busy hw (pre_ready r)
        \<and> list_all (busy hw) (post_busy r) \<and> \<not> busy hw (post_ready r))"

text \<open>The decoded status signals failure: one of the four error bits is set.\<close>

definition failed :: "ftfc \<Rightarrow> uint8_t \<Rightarrow> bool" where
  "failed hw st =
     (st AND FTTC_FSTAT_MGSTAT0 hw \<noteq> 0 \<or> st AND FTTC_FSTAT_FPVIOL hw \<noteq> 0
        \<or> st AND FTTC_FSTAT_ACCERR hw \<noteq> 0 \<or> st AND FTTC_FSTAT_RDCOLERR hw \<noteq> 0)"

subsection \<open>The register accesses of one command\<close>

definition poll_events :: "ftfc \<Rightarrow> uint8_t list \<Rightarrow> uint8_t \<Rightarrow> event list" where
  "poll_events hw bs r = map (Rd (S32K1XX_FTFC_FSTAT hw)) (bs @ [r])"

definition launch_events :: "ftfc \<Rightarrow> uint8_t \<Rightarrow> uint8_t list \<Rightarrow> uint8_t \<Rightarrow> uint8_t \<Rightarrow> event list" where
  "launch_events hw v bs r st =
     [Rd (S32K1XX_FTFC_FSTAT hw) v, Wr (S32K1XX_FTFC_FSTAT hw) (v OR FTTC_FSTAT_CCIF hw)]
       @ poll_events hw bs r @ [Rd (S32K1XX_FTFC_FSTAT hw) st]"

definition payload_events :: "progmem \<Rightarrow> ftfc \<Rightarrow> memory \<Rightarrow> uint32_t \<Rightarrow> uint32_t \<Rightarrow> event list" where
  "payload_events g hw mem off src =
     map (\<lambda>j. Wr (S32K1XX_FTFC_BASE hw + of_nat j + off) (mem (src + of_nat j)))
       [0 ..< unat (S32K1XX_PROGMEM_DFLASH_WRITE_UNIT_SIZE g)]"

text \<open>Ready-wait, error clear, command code, three address bytes, the command's further
  parameter writes \<open>extra\<close>, launch, completion poll and status read.\<close>

definition command_events :: "ftfc \<Rightarrow> uint8_t \<Rightarrow> uint32_t \<Rightarrow> event list \<Rightarrow> run \<Rightarrow> event list" where
  "command_events hw opcode dest extra r =
     poll_events hw (pre_busy r) (pre_ready r)
       @ [Wr (S32K1XX_FTFC_FSTAT hw)
            (FTTC_FSTAT_FPVIOL hw OR FTTC_FSTAT_ACCERR hw OR FTTC_FSTAT_RDCOLERR hw),
          Wr (S32K1XX_FTFC_FCCOB0 hw) opcode,
          Wr (S32K1XX_FTFC_FCCOB1 hw) (fccob1 dest),
          Wr (S32K1XX_FTFC_FCCOB2 hw) (fccob2 dest),
          Wr (S32K1XX_FTFC_FCCOB3 hw) (fccob3 dest)]
       @ extra
       @ launch_events hw (launch_read r) (post_busy r) (post_ready r) (status r)"

text \<open>The accesses of consecutive program commands, one per run, the first at \<open>dest\<close> with
  the payload at \<open>src\<close>, each next one a write unit further.\<close>

fun program_events :: "progmem \<Rightarrow> ftfc \<Rightarrow> memory \<Rightarrow> uint32_t \<Rightarrow> uint32_t \<Rightarrow> run list \<Rightarrow> event list" where
  "program_events g hw mem dest src [] = []"
| "program_events g hw mem dest src (r # rs) =
     command_events hw (S32K1XX_FTFC_PROGRAM_PHRASE hw) dest (payload_events g hw mem 0x8 src) r
       @ program_events g hw mem (dest + S32K1XX_PROGMEM_DFLASH_WRITE_UNIT_SIZE g)
           (src + S32K1XX_PROGMEM_DFLASH_WRITE_UNIT_SIZE g) rs"

fun check_events :: "progmem \<Rightarrow> ftfc \<Rightarrow> memory \<Rightarrow> uint32_t \<Rightarrow> uint32_t \<Rightarrow> run list \<Rightarrow> event list" where
  "check_events g hw mem dest src [] = []"
| "check_events g hw mem dest src (r # rs) =
     command_events hw (S32K1XX_FTFC_PROGRAM_CHECK hw) dest
         (Wr (S32K1XX_FTFC_FCCOB4 hw) 1 # payload_events g hw mem 0xc src) r
       @ check_events g hw mem (dest + S32K1XX_PROGMEM_DFLASH_WRITE_UNIT_SIZE g)
           (src + S32K1XX_PROGMEM_DFLASH_WRITE_UNIT_SIZE g) rs"

text \<open>The address the write path works with after lines 372 to 375.\<close>

definition flash_offset :: "progmem \<Rightarrow> size_t \<Rightarrow> size_t" where
  "flash_offset g addr =
     (if addr \<ge> S32K1XX_PROGMEM_START_ADDR g then addr - S32K1XX_PROGMEM_START_ADDR g else addr)"

text \<open>Modelled from the spec: the response of the status register to a write is hardware
  and not part of the sources; the spec gives the convention (``write-1-to-clear'',
  ``writing the completion bit triggers execution in this hardware's convention''): a
  flag written as 1 is cleared, a flag written as 0 keeps its value.\<close>

definition fstat_after_write :: "uint8_t \<Rightarrow> uint8_t \<Rightarrow> uint8_t" where
  "fstat_after_write old written = old AND NOT written"

subsection \<open>One instance of the constants\<close>

text \<open>An instance of the two header records, used only to evaluate the functions on
  concrete inputs.  The headers are not among the sources, so these are chosen values, not
  the driver's: the sizes are those of the spec's scenario (page 2048, block 4096, write
  unit 8); the base address, the register addresses, the command codes and the bit
  positions are picked for the evaluation.  The general theorems quantify over both
  records and do not depend on them.  Both switches are off.\<close>

definition ftfc0 :: ftfc where
  "ftfc0 = \<lparr>
     S32K1XX_FTFC_BASE = 0x40020000,
     S32K1XX_FTFC_FSTAT = 0x40020000,
     S32K1XX_FTFC_FCCOB0 = 0x40020007,
     S32K1XX_FTFC_FCCOB1 = 0x40020006,
     S32K1XX_FTFC_FCCOB2 = 0x40020005,
     S32K1XX_FTFC_FCCOB3 = 0x40020004,
     S32K1XX_FTFC_FCCOB4 = 0x4002000b,
     S32K1XX_FTFC_FCCOB5 = 0x4002000a,
     S32K1XX_FTFC_FCCOB6 = 0x40020009,
     S32K1XX_FTFC_ERASE_SECTOR = 0x09,
     S32K1XX_FTFC_VERIFY_SECTION = 0x01,
     S32K1XX_FTFC_PROGRAM_PHRASE = 0x07,
     S32K1XX_FTFC_PROGRAM_CHECK = 0x02,
     FTTC_FSTAT_CCIF = 0x80,
     FTTC_FSTAT_MGSTAT0 = 0x01,
     FTTC_FSTAT_FPVIOL = 0x10,
     FTTC_FSTAT_ACCERR = 0x20,
     FTTC_FSTAT_RDCOLERR = 0x40 \<rparr>"

definition progmem0 :: progmem where
  "progmem0 = \<lparr>
     S32K1XX_PROGMEM_START_ADDR = 0x10000000,
     S32K1XX_PROGMEM_PAGE_SIZE = 2048,
     S32K1XX_PROGMEM_BLOCK_SECTOR_SIZE = 4096,
     S32K1XX_PROGMEM_PAGE_COUNT = 32,
     S32K1XX_PROGMEM_SECTOR_COUNT = 16,
     S32K1XX_PROGMEM_DFLASH_WRITE_UNIT_SIZE = 8,
     FTFC_VERIFY_CHECK = False,
     SMART_FS_DOUBLE_WRITE_WORKAROUND = False \<rparr>"

text \<open>A run in which the controller is ready at once and ends with status \<open>st\<close>.\<close>

definition prompt_run :: "uint8_t \<Rightarrow> run" where
  "prompt_run st = Run [] 0x80 0x80 [0x00] 0x80 st"

text \<open>A flash image in which only the byte at offset 5 of page 0 is programmed.\<close>

definition mem1 :: memory where
  "mem1 a = (if a = 0x10000005 then 0x00 else 0xff)"

section \<open>Basic facts\<close>

declare wait_ftfc_ready.simps [simp del] program_loop.simps [simp del]
  verify_loop.simps [simp del] erased_scan.simps [simp del]

lemma port_eq [simp]: "s\<lparr>reads := a, trace := b\<rparr> = \<lparr>reads = a, trace = b\<rparr>"
  by simp

lemma wait_ftfc_ready_polls:
  "list_all (busy hw) bs \<Longrightarrow> \<not> busy hw r \<Longrightarrow> reads s = bs @ r # rest \<Longrightarrow>
   wait_ftfc_ready hw s = Some \<lparr>reads = rest, trace = trace s @ poll_events hw bs r\<rparr>"
proof (induction bs arbitrary: s)
  case Nil
  then show ?case
    by (subst wait_ftfc_ready.simps) (simp add: getreg8_def busy_def poll_events_def)
next
  case (Cons b bs)
  let ?s' = "\<lparr>reads = bs @ r # rest, trace = trace s @ [Rd (S32K1XX_FTFC_FSTAT hw) b]\<rparr>"
  from Cons.prems have b: "busy hw b" and bs: "list_all (busy hw) bs" by simp_all
  have "wait_ftfc_ready hw s = wait_ftfc_ready hw ?s'"
    using Cons.prems(3) b by (subst wait_ftfc_ready.simps) (simp add: getreg8_def busy_def)
  also have "\<dots> = Some \<lparr>reads = rest, trace = trace ?s' @ poll_events hw bs r\<rparr>"
    by (rule Cons.IH [OF bs Cons.prems(2)]) simp
  finally show ?case by (simp add: poll_events_def)
qed

lemma wait_ftfc_ready_never:
  "list_all (busy hw) (reads s) \<Longrightarrow> wait_ftfc_ready hw s = None"
proof (induction "reads s" arbitrary: s)
  case Nil
  then show ?case by (subst wait_ftfc_ready.simps) (simp add: getreg8_def)
next
  case (Cons b bs)
  from Cons.hyps(2) [symmetric] Cons.prems have b: "busy hw b" and bs: "list_all (busy hw) bs"
    by simp_all
  let ?s' = "\<lparr>reads = bs, trace = trace s @ [Rd (S32K1XX_FTFC_FSTAT hw) b]\<rparr>"
  have "wait_ftfc_ready hw s = wait_ftfc_ready hw ?s'"
    using Cons.hyps(2) [symmetric] b
    by (subst wait_ftfc_ready.simps) (simp add: getreg8_def busy_def)
  also have "\<dots> = None" using bs by (intro Cons.hyps(1)) simp_all
  finally show ?case .
qed

lemma execute_ftfc_command_run:
  assumes "list_all (busy hw) bs" "\<not> busy hw r" "reads s = v # bs @ r # st # rest"
  shows "execute_ftfc_command hw s =
     Some (ucast st, \<lparr>reads = rest, trace = trace s @ launch_events hw v bs r st\<rparr>)"
proof -
  let ?s2 = "\<lparr>reads = bs @ r # st # rest, trace = trace s @
       [Rd (S32K1XX_FTFC_FSTAT hw) v, Wr (S32K1XX_FTFC_FSTAT hw) (v OR FTTC_FSTAT_CCIF hw)]\<rparr>"
  have w: "wait_ftfc_ready hw ?s2
             = Some \<lparr>reads = st # rest, trace = trace ?s2 @ poll_events hw bs r\<rparr>"
    by (rule wait_ftfc_ready_polls [OF assms(1,2)]) simp
  show ?thesis
    using assms(3) w
    by (simp add: execute_ftfc_command_def getreg8_def putreg8_def launch_events_def)
qed

lemma ucast_eq_0: "((ucast (x :: uint8_t) :: uint32_t) = 0) = (x = 0)"
proof
  assume a: "(ucast x :: uint32_t) = 0"
  show "x = 0"
  proof (rule bit_eqI)
    fix n
    have "bit (ucast x :: uint32_t) n = False" using a by simp
    then show "bit x n = bit (0 :: uint8_t) n"
      by (auto simp: bit_unsigned_iff dest: bit_imp_le_length)
  qed
qed simp

lemma error_mask_failed: "(st AND error_mask hw \<noteq> 0) = failed hw st"
  by (simp add: error_mask_def failed_def bit.conj_disj_distrib or_eq_0_iff)

lemma status_test: "((ucast st :: uint32_t) AND ucast (error_mask hw) \<noteq> 0) = failed hw st"
proof -
  have "(ucast st :: uint32_t) AND ucast (error_mask hw) = ucast (st AND error_mask hw)"
    by (simp add: unsigned_and_eq)
  then show ?thesis by (simp add: ucast_eq_0 error_mask_failed)
qed

lemma port_surj: "s = \<lparr>reads = reads s, trace = trace s\<rparr>"
  by simp

lemma putreg8_port [simp]:
  "putreg8 v a \<lparr>reads = x, trace = t\<rparr> = \<lparr>reads = x, trace = t @ [Wr a v]\<rparr>"
  by (simp add: putreg8_def)

lemma wait_run:
  assumes "run_ok hw r"
  shows "wait_ftfc_ready hw \<lparr>reads = run_reads r @ rest, trace = tr\<rparr> =
     Some \<lparr>reads = launch_read r # post_busy r @ post_ready r # status r # rest,
           trace = tr @ poll_events hw (pre_busy r) (pre_ready r)\<rparr>"
proof -
  from assms have a: "list_all (busy hw) (pre_busy r)" "\<not> busy hw (pre_ready r)"
    by (simp_all add: run_ok_def)
  show ?thesis
    using wait_ftfc_ready_polls [OF a, of "\<lparr>reads = run_reads r @ rest, trace = tr\<rparr>"
        "launch_read r # post_busy r @ post_ready r # status r # rest"]
    by (simp add: run_reads_def)
qed

lemma execute_run:
  assumes "run_ok hw r"
  shows "execute_ftfc_command hw
       \<lparr>reads = launch_read r # post_busy r @ post_ready r # status r # rest, trace = tr\<rparr> =
     Some (ucast (status r), \<lparr>reads = rest,
           trace = tr @ launch_events hw (launch_read r) (post_busy r) (post_ready r) (status r)\<rparr>)"
proof -
  from assms have a: "list_all (busy hw) (post_busy r)" "\<not> busy hw (post_ready r)"
    by (simp_all add: run_ok_def)
  show ?thesis
    using execute_ftfc_command_run [OF a,
        of "\<lparr>reads = launch_read r # post_busy r @ post_ready r # status r # rest, trace = tr\<rparr>"
        "launch_read r" "status r" rest]
    by simp
qed

lemma fold_putreg8:
  "fold (\<lambda>j s. putreg8 (f j) (a j) s) xs \<lparr>reads = x, trace = t\<rparr>
     = \<lparr>reads = x, trace = t @ map (\<lambda>j. Wr (a j) (f j)) xs\<rparr>"
  by (induction xs arbitrary: t) simp_all

lemma load_payload_port [simp]:
  "load_payload g hw mem off src \<lparr>reads = x, trace = t\<rparr>
     = \<lparr>reads = x, trace = t @ payload_events g hw mem off src\<rparr>"
  unfolding load_payload_def payload_events_def by (rule fold_putreg8)

lemma eraseblock_run:
  assumes "run_ok hw er" and "FTFC_VERIFY_CHECK g \<Longrightarrow> run_ok hw vr"
  shows "map_option fst (up_progmem_eraseblock g hw block
            \<lparr>reads = run_reads er @ (if FTFC_VERIFY_CHECK g then run_reads vr else []) @ rest, trace = tr\<rparr>)
     = Some (if failed hw (status er) \<or> (FTFC_VERIFY_CHECK g \<and> failed hw (status vr))
             then Inl EIO else Inr (S32K1XX_PROGMEM_BLOCK_SECTOR_SIZE g))"
  using assms
  by (simp add: up_progmem_eraseblock_def wait_run execute_run status_test Let_def)

lemma eraseblock_errors:
  "up_progmem_eraseblock g hw block s = Some (Inl e, s') \<Longrightarrow> e = EIO"
  by (auto simp: up_progmem_eraseblock_def Let_def bind_eq_Some_conv split: if_splits)

lemma erased_scan_props:
  "i \<le> unat (S32K1XX_PROGMEM_PAGE_SIZE g) \<Longrightarrow> \<forall>j<i. mem (p + of_nat j) = 0xff \<Longrightarrow>
   (let k = erased_scan g mem p i in
      k \<le> unat (S32K1XX_PROGMEM_PAGE_SIZE g) \<and> (\<forall>j<k. mem (p + of_nat j) = 0xff)
      \<and> (k < unat (S32K1XX_PROGMEM_PAGE_SIZE g) \<longrightarrow> mem (p + of_nat k) \<noteq> 0xff))"
proof (induction g mem p i rule: erased_scan.induct)
  case (1 g mem p i)
  show ?case
  proof (cases "i < unat (S32K1XX_PROGMEM_PAGE_SIZE g) \<and> mem (p + of_nat i) = 0xff")
    case True
    then have "\<forall>j<i + 1. mem (p + of_nat j) = 0xff"
      using "1.prems"(2) by (auto simp: less_Suc_eq)
    with True "1.IH" have "let k = erased_scan g mem p (i + 1) in
      k \<le> unat (S32K1XX_PROGMEM_PAGE_SIZE g) \<and> (\<forall>j<k. mem (p + of_nat j) = 0xff)
      \<and> (k < unat (S32K1XX_PROGMEM_PAGE_SIZE g) \<longrightarrow> mem (p + of_nat k) \<noteq> 0xff)"
      by simp
    with True show ?thesis by (subst erased_scan.simps) simp
  next
    case False
    with "1.prems" show ?thesis by (subst erased_scan.simps) (auto simp: Let_def)
  qed
qed

lemma scan_mem1: "erased_scan progmem0 mem1 (up_progmem_getaddress progmem0 0) 0 = 5"
  by (simp add: erased_scan.simps up_progmem_getaddress_def progmem0_def mem1_def)

lemma wait_ftfc_ready_error_bits:
  "wait_ftfc_ready (hw\<lparr>FTTC_FSTAT_MGSTAT0 := a, FTTC_FSTAT_FPVIOL := b,
       FTTC_FSTAT_ACCERR := c, FTTC_FSTAT_RDCOLERR := d\<rparr>) s = wait_ftfc_ready hw s"
proof (induction hw s rule: wait_ftfc_ready.induct)
  case (1 hw s)
  show ?case
    by (subst wait_ftfc_ready.simps, subst (2) wait_ftfc_ready.simps)
       (auto intro!: Option.bind_cong simp: "1.IH")
qed

subsection \<open>The program and verify loops\<close>

lemma program_loop_exit:
  "\<not> i < count div S32K1XX_PROGMEM_DFLASH_WRITE_UNIT_SIZE g \<Longrightarrow>
   program_loop g hw mem count i dest src s = Some (None, s)"
  by (subst program_loop.simps) simp

lemma program_loop_clean:
  assumes "i < count div S32K1XX_PROGMEM_DFLASH_WRITE_UNIT_SIZE g" and "run_ok hw r"
    and "\<not> failed hw (status r)"
  shows "program_loop g hw mem count i dest src \<lparr>reads = run_reads r @ rest, trace = tr\<rparr> =
     program_loop g hw mem count (i + 1) (dest + S32K1XX_PROGMEM_DFLASH_WRITE_UNIT_SIZE g)
       (src + S32K1XX_PROGMEM_DFLASH_WRITE_UNIT_SIZE g)
       \<lparr>reads = rest,
        trace = tr @ command_events hw (S32K1XX_FTFC_PROGRAM_PHRASE hw) dest
                       (payload_events g hw mem 0x8 src) r\<rparr>"
  using assms
  by (subst program_loop.simps)
     (simp add: wait_run execute_run status_test Let_def command_events_def)

lemma program_loop_failed:
  assumes "i < count div S32K1XX_PROGMEM_DFLASH_WRITE_UNIT_SIZE g" and "run_ok hw r"
    and "failed hw (status r)"
  shows "program_loop g hw mem count i dest src \<lparr>reads = run_reads r @ rest, trace = tr\<rparr> =
     Some (Some EIO, \<lparr>reads = rest,
        trace = tr @ command_events hw (S32K1XX_FTFC_PROGRAM_PHRASE hw) dest
                       (payload_events g hw mem 0x8 src) r\<rparr>)"
  using assms
  by (subst program_loop.simps)
     (simp add: wait_run execute_run status_test Let_def command_events_def)

lemma unat_word_Suc: "unat (i :: uint32_t) + Suc k \<le> unat (n :: uint32_t) \<Longrightarrow>
    i < n \<and> unat (i + 1) = Suc (unat i)"
  by unat_arith

lemma program_loop_runs:
  assumes "list_all (run_ok hw) rs" and "list_all (\<lambda>r. \<not> failed hw (status r)) rs"
    and "unat i + length rs \<le> unat (count div S32K1XX_PROGMEM_DFLASH_WRITE_UNIT_SIZE g)"
  shows "program_loop g hw mem count i dest src
       \<lparr>reads = concat (map run_reads rs) @ rest, trace = tr\<rparr> =
     program_loop g hw mem count (i + of_nat (length rs))
       (dest + of_nat (length rs) * S32K1XX_PROGMEM_DFLASH_WRITE_UNIT_SIZE g)
       (src + of_nat (length rs) * S32K1XX_PROGMEM_DFLASH_WRITE_UNIT_SIZE g)
       \<lparr>reads = rest, trace = tr @ program_events g hw mem dest src rs\<rparr>"
  using assms
proof (induction rs arbitrary: i dest src tr)
  case Nil
  then show ?case by simp
next
  case (Cons r rs)
  let ?U = "S32K1XX_PROGMEM_DFLASH_WRITE_UNIT_SIZE g"
  from Cons.prems(3) have i: "i < count div ?U" "unat (i + 1) = Suc (unat i)"
    using unat_word_Suc [of i "length rs" "count div ?U"] by simp_all
  from Cons.prems have r: "run_ok hw r" "\<not> failed hw (status r)"
    and rs: "list_all (run_ok hw) rs" "list_all (\<lambda>r. \<not> failed hw (status r)) rs"
    by simp_all
  from Cons.prems(3) i(2) have le: "unat (i + 1) + length rs \<le> unat (count div ?U)" by simp
  have "program_loop g hw mem count i dest src
          \<lparr>reads = concat (map run_reads (r # rs)) @ rest, trace = tr\<rparr>
      = program_loop g hw mem count (i + 1) (dest + ?U) (src + ?U)
          \<lparr>reads = concat (map run_reads rs) @ rest,
           trace = tr @ command_events hw (S32K1XX_FTFC_PROGRAM_PHRASE hw) dest
                       (payload_events g hw mem 0x8 src) r\<rparr>"
    using program_loop_clean [OF i(1) r, where rest = "concat (map run_reads rs) @ rest"]
    by simp
  also note Cons.IH [OF rs le]
  finally show ?case by (simp add: algebra_simps)
qed

lemma program_events_append:
  "program_events g hw mem dest src (rs @ rs') =
     program_events g hw mem dest src rs
       @ program_events g hw mem
           (dest + of_nat (length rs) * S32K1XX_PROGMEM_DFLASH_WRITE_UNIT_SIZE g)
           (src + of_nat (length rs) * S32K1XX_PROGMEM_DFLASH_WRITE_UNIT_SIZE g) rs'"
  by (induction rs arbitrary: dest src) (simp_all add: algebra_simps)

lemma of_nat_less_chunks:
  "k < unat (n :: uint32_t) \<Longrightarrow> (of_nat k :: uint32_t) < n"
  by (simp add: word_less_nat_alt le_unat_uoi [of k n])

lemma program_loop_runs_failed:
  assumes "list_all (run_ok hw) rs" and "list_all (\<lambda>r. \<not> failed hw (status r)) rs"
    and "run_ok hw r" and "failed hw (status r)"
    and "length rs < unat (count div S32K1XX_PROGMEM_DFLASH_WRITE_UNIT_SIZE g)"
  shows "program_loop g hw mem count 0 dest src
       \<lparr>reads = concat (map run_reads (rs @ [r])) @ rest, trace = tr\<rparr> =
     Some (Some EIO,
       \<lparr>reads = rest, trace = tr @ program_events g hw mem dest src (rs @ [r])\<rparr>)"
proof -
  let ?U = "S32K1XX_PROGMEM_DFLASH_WRITE_UNIT_SIZE g"
  from assms(5) have le: "unat (0 :: uint32_t) + length rs \<le> unat (count div ?U)" by simp
  from assms(5) have lt: "(of_nat (length rs) :: uint32_t) < count div ?U"
    by (rule of_nat_less_chunks)
  have "program_loop g hw mem count 0 dest src
          \<lparr>reads = concat (map run_reads (rs @ [r])) @ rest, trace = tr\<rparr>
      = program_loop g hw mem count (of_nat (length rs))
          (dest + of_nat (length rs) * ?U) (src + of_nat (length rs) * ?U)
          \<lparr>reads = run_reads r @ rest, trace = tr @ program_events g hw mem dest src rs\<rparr>"
    using program_loop_runs [OF assms(1,2) le, where rest = "run_reads r @ rest"] by simp
  also have "\<dots> = Some (Some EIO,
       \<lparr>reads = rest, trace = tr @ program_events g hw mem dest src (rs @ [r])\<rparr>)"
    using program_loop_failed [OF lt assms(3,4)] by (simp add: program_events_append)
  finally show ?thesis .
qed

lemma program_loop_runs_all:
  assumes "list_all (run_ok hw) rs" and "list_all (\<lambda>r. \<not> failed hw (status r)) rs"
    and "length rs = unat (count div S32K1XX_PROGMEM_DFLASH_WRITE_UNIT_SIZE g)"
  shows "program_loop g hw mem count 0 dest src
       \<lparr>reads = concat (map run_reads rs) @ rest, trace = tr\<rparr> =
     Some (None, \<lparr>reads = rest, trace = tr @ program_events g hw mem dest src rs\<rparr>)"
proof -
  let ?U = "S32K1XX_PROGMEM_DFLASH_WRITE_UNIT_SIZE g"
  from assms(3) have le: "unat (0 :: uint32_t) + length rs \<le> unat (count div ?U)" by simp
  from assms(3) have "(of_nat (length rs) :: uint32_t) = count div ?U" by simp
  then have ex: "\<not> (of_nat (length rs) :: uint32_t) < count div ?U" by simp
  show ?thesis
    using program_loop_runs [OF assms(1,2) le, where rest = rest] program_loop_exit [OF ex]
    by simp
qed

lemma up_progmem_write_unfold:
  "up_progmem_write g hw mem addr buf count s =
     (if count mod S32K1XX_PROGMEM_DFLASH_WRITE_UNIT_SIZE g \<noteq> 0 then Some (Inl EINVAL, s)
      else if SMART_FS_DOUBLE_WRITE_WORKAROUND g
                \<and> load32 mem (flash_offset g addr) = load32 mem buf then Some (Inr count, s)
      else
        do {
          (r, s) \<leftarrow> program_loop g hw mem count 0 (flash_offset g addr + 0x800000) buf s;
          case r of
            Some e \<Rightarrow> Some (Inl e, s)
          | None \<Rightarrow>
              if FTFC_VERIFY_CHECK g then
                do {
                  (r, s) \<leftarrow> verify_loop g hw mem count 0 (flash_offset g addr + 0x800000) buf s;
                  case r of
                    Some c \<Rightarrow> Some (Inr c, s)
                  | None \<Rightarrow> Some (Inr count, s)
                }
              else Some (Inr count, s)
        })"
  unfolding up_progmem_write_def flash_offset_def Let_def by simp

lemma fpviol_failed: "st AND FTTC_FSTAT_FPVIOL hw \<noteq> 0 \<Longrightarrow> failed hw st"
  by (simp add: failed_def)

lemma verify_loop_exit:
  "\<not> i < count div S32K1XX_PROGMEM_DFLASH_WRITE_UNIT_SIZE g \<Longrightarrow>
   verify_loop g hw mem count i dest src s = Some (None, s)"
  by (subst verify_loop.simps) simp

lemma verify_loop_clean:
  assumes "i < count div S32K1XX_PROGMEM_DFLASH_WRITE_UNIT_SIZE g" and "run_ok hw r"
    and "\<not> failed hw (status r)"
  shows "verify_loop g hw mem count i dest src \<lparr>reads = run_reads r @ rest, trace = tr\<rparr> =
     verify_loop g hw mem count (i + 1) (dest + S32K1XX_PROGMEM_DFLASH_WRITE_UNIT_SIZE g)
       (src + S32K1XX_PROGMEM_DFLASH_WRITE_UNIT_SIZE g)
       \<lparr>reads = rest,
        trace = tr @ command_events hw (S32K1XX_FTFC_PROGRAM_CHECK hw) dest
                  (Wr (S32K1XX_FTFC_FCCOB4 hw) 1 # payload_events g hw mem 0xc src) r\<rparr>"
  using assms
  by (subst verify_loop.simps)
     (simp add: wait_run execute_run status_test Let_def command_events_def)

lemma verify_loop_failed:
  assumes "i < count div S32K1XX_PROGMEM_DFLASH_WRITE_UNIT_SIZE g" and "run_ok hw r"
    and "failed hw (status r)"
  shows "verify_loop g hw mem count i dest src \<lparr>reads = run_reads r @ rest, trace = tr\<rparr> =
     Some (Some count, \<lparr>reads = rest,
        trace = tr @ command_events hw (S32K1XX_FTFC_PROGRAM_CHECK hw) dest
                  (Wr (S32K1XX_FTFC_FCCOB4 hw) 1 # payload_events g hw mem 0xc src) r\<rparr>)"
  using assms
  by (subst verify_loop.simps)
     (simp add: wait_run execute_run status_test Let_def command_events_def)

lemma verify_loop_runs:
  assumes "list_all (run_ok hw) rs" and "list_all (\<lambda>r. \<not> failed hw (status r)) rs"
    and "unat i + length rs \<le> unat (count div S32K1XX_PROGMEM_DFLASH_WRITE_UNIT_SIZE g)"
  shows "verify_loop g hw mem count i dest src
       \<lparr>reads = concat (map run_reads rs) @ rest, trace = tr\<rparr> =
     verify_loop g hw mem count (i + of_nat (length rs))
       (dest + of_nat (length rs) * S32K1XX_PROGMEM_DFLASH_WRITE_UNIT_SIZE g)
       (src + of_nat (length rs) * S32K1XX_PROGMEM_DFLASH_WRITE_UNIT_SIZE g)
       \<lparr>reads = rest, trace = tr @ check_events g hw mem dest src rs\<rparr>"
  using assms
proof (induction rs arbitrary: i dest src tr)
  case Nil
  then show ?case by simp
next
  case (Cons r rs)
  let ?U = "S32K1XX_PROGMEM_DFLASH_WRITE_UNIT_SIZE g"
  from Cons.prems(3) have i: "i < count div ?U" "unat (i + 1) = Suc (unat i)"
    using unat_word_Suc [of i "length rs" "count div ?U"] by simp_all
  from Cons.prems have r: "run_ok hw r" "\<not> failed hw (status r)"
    and rs: "list_all (run_ok hw) rs" "list_all (\<lambda>r. \<not> failed hw (status r)) rs"
    by simp_all
  from Cons.prems(3) i(2) have le: "unat (i + 1) + length rs \<le> unat (count div ?U)" by simp
  have "verify_loop g hw mem count i dest src
          \<lparr>reads = concat (map run_reads (r # rs)) @ rest, trace = tr\<rparr>
      = verify_loop g hw mem count (i + 1) (dest + ?U) (src + ?U)
          \<lparr>reads = concat (map run_reads rs) @ rest,
           trace = tr @ command_events hw (S32K1XX_FTFC_PROGRAM_CHECK hw) dest
                  (Wr (S32K1XX_FTFC_FCCOB4 hw) 1 # payload_events g hw mem 0xc src) r\<rparr>"
    using verify_loop_clean [OF i(1) r, where rest = "concat (map run_reads rs) @ rest"]
    by simp
  also note Cons.IH [OF rs le]
  finally show ?case by (simp add: algebra_simps)
qed

lemma check_events_append:
  "check_events g hw mem dest src (rs @ rs') =
     check_events g hw mem dest src rs
       @ check_events g hw mem
           (dest + of_nat (length rs) * S32K1XX_PROGMEM_DFLASH_WRITE_UNIT_SIZE g)
           (src + of_nat (length rs) * S32K1XX_PROGMEM_DFLASH_WRITE_UNIT_SIZE g) rs'"
  by (induction rs arbitrary: dest src) (simp_all add: algebra_simps)

lemma verify_loop_runs_failed:
  assumes "list_all (run_ok hw) rs" and "list_all (\<lambda>r. \<not> failed hw (status r)) rs"
    and "run_ok hw r" and "failed hw (status r)"
    and "length rs < unat (count div S32K1XX_PROGMEM_DFLASH_WRITE_UNIT_SIZE g)"
  shows "verify_loop g hw mem count 0 dest src
       \<lparr>reads = concat (map run_reads (rs @ [r])) @ rest, trace = tr\<rparr> =
     Some (Some count,
       \<lparr>reads = rest, trace = tr @ check_events g hw mem dest src (rs @ [r])\<rparr>)"
proof -
  let ?U = "S32K1XX_PROGMEM_DFLASH_WRITE_UNIT_SIZE g"
  from assms(5) have le: "unat (0 :: uint32_t) + length rs \<le> unat (count div ?U)" by simp
  from assms(5) have lt: "(of_nat (length rs) :: uint32_t) < count div ?U"
    by (rule of_nat_less_chunks)
  have "verify_loop g hw mem count 0 dest src
          \<lparr>reads = concat (map run_reads (rs @ [r])) @ rest, trace = tr\<rparr>
      = verify_loop g hw mem count (of_nat (length rs))
          (dest + of_nat (length rs) * ?U) (src + of_nat (length rs) * ?U)
          \<lparr>reads = run_reads r @ rest, trace = tr @ check_events g hw mem dest src rs\<rparr>"
    using verify_loop_runs [OF assms(1,2) le, where rest = "run_reads r @ rest"] by simp
  also have "\<dots> = Some (Some count,
       \<lparr>reads = rest, trace = tr @ check_events g hw mem dest src (rs @ [r])\<rparr>)"
    using verify_loop_failed [OF lt assms(3,4)] by (simp add: check_events_append)
  finally show ?thesis .
qed

subsection \<open>Only three address bytes reach the controller\<close>

lemma low24_bit:
  assumes "take_bit 24 (a :: uint32_t) = take_bit 24 b" and "n < 24"
  shows "bit a n = bit b n"
proof -
  have "bit (take_bit 24 a) n = bit (take_bit 24 b) n" using assms(1) by simp
  with assms(2) show ?thesis by (simp add: bit_take_bit_iff)
qed

lemma word_take_bit_add:
  "take_bit n (take_bit n (a :: uint32_t) + take_bit n b) = take_bit n (a + b)"
  by transfer (simp add: take_bit_eq_mod, presburger)

lemma low24_add:
  assumes "take_bit 24 (a :: uint32_t) = take_bit 24 b"
  shows "take_bit 24 (a + u) = take_bit 24 (b + u)"
proof -
  have "take_bit 24 (a + u) = take_bit 24 (take_bit 24 a + take_bit 24 u)"
    by (simp only: word_take_bit_add)
  also have "\<dots> = take_bit 24 (take_bit 24 b + take_bit 24 u)"
    by (simp only: assms)
  also have "\<dots> = take_bit 24 (b + u)"
    by (simp only: word_take_bit_add)
  finally show ?thesis .
qed

lemma low24_diff:
  assumes "take_bit 24 (b :: uint32_t) = 0"
  shows "take_bit 24 (a - b) = take_bit 24 a"
proof -
  have "take_bit 24 a = take_bit 24 ((a - b) + b)" by simp
  also have "\<dots> = take_bit 24 (take_bit 24 (a - b) + take_bit 24 b)"
    by (simp only: word_take_bit_add)
  also have "\<dots> = take_bit 24 (a - b)" by (simp add: assms)
  finally show ?thesis by simp
qed

lemma low24_byte:
  assumes "take_bit 24 (a :: uint32_t) = take_bit 24 b" and "k \<le> 16"
  shows "(ucast (drop_bit k a) :: uint8_t) = ucast (drop_bit k b)"
proof (rule bit_eqI)
  fix n
  assume "possible_bit TYPE(uint8_t) n"
  then have n: "n < 8" by (simp add: possible_bit_def)
  with assms(2) have "k + n < 24" by simp
  then have "bit a (k + n) = bit b (k + n)" by (rule low24_bit [OF assms(1)])
  with n show "bit (ucast (drop_bit k a) :: uint8_t) n = bit (ucast (drop_bit k b) :: uint8_t) n"
    by (simp add: bit_ucast_iff bit_drop_bit_eq)
qed

lemma low24_fccob:
  assumes "take_bit 24 (a :: uint32_t) = take_bit 24 b"
  shows "fccob1 a = fccob1 b" and "fccob2 a = fccob2 b" and "fccob3 a = fccob3 b"
  using low24_byte [OF assms, of 16] low24_byte [OF assms, of 8] low24_byte [OF assms, of 0]
  by (simp_all add: fccob1_def fccob2_def fccob3_def)

lemma program_loop_low24:
  "take_bit 24 dest = take_bit 24 dest' \<Longrightarrow>
   program_loop g hw mem count i dest src s = program_loop g hw mem count i dest' src s"
proof (induction g hw mem count i dest src s arbitrary: dest' rule: program_loop.induct)
  case (1 g hw mem count i dest src s)
  let ?U = "S32K1XX_PROGMEM_DFLASH_WRITE_UNIT_SIZE g"
  note f = low24_fccob [OF "1.prems"]
  note a = low24_add [OF "1.prems", of ?U]
  show ?case
  proof (cases "i < count div ?U")
    case False
    then show ?thesis by (simp add: program_loop_exit)
  next
    case True
    show ?thesis
    proof (cases "wait_ftfc_ready hw s")
      case None
      then show ?thesis
        by (subst program_loop.simps, subst (2) program_loop.simps) simp
    next
      case (Some s1)
      let ?s6 = "load_payload g hw mem 8 src
            (putreg8 (fccob3 dest) (S32K1XX_FTFC_FCCOB3 hw)
              (putreg8 (fccob2 dest) (S32K1XX_FTFC_FCCOB2 hw)
                (putreg8 (fccob1 dest) (S32K1XX_FTFC_FCCOB1 hw)
                  (putreg8 (S32K1XX_FTFC_PROGRAM_PHRASE hw) (S32K1XX_FTFC_FCCOB0 hw)
                    (putreg8 (FTTC_FSTAT_FPVIOL hw OR FTTC_FSTAT_ACCERR hw OR FTTC_FSTAT_RDCOLERR hw)
                      (S32K1XX_FTFC_FSTAT hw) s1)))))"
      show ?thesis
      proof (cases "execute_ftfc_command hw ?s6")
        case None
        with Some show ?thesis
          by (subst program_loop.simps, subst (2) program_loop.simps) (simp add: f Let_def)
      next
        case ex: (Some p)
        obtain st s7 where p: "(st, s7) = p" by (cases p) simp
        have "program_loop g hw mem count (i + 1) (dest + ?U) (src + ?U) s7
            = program_loop g hw mem count (i + 1) (dest' + ?U) (src + ?U) s7"
          if "\<not> st AND ucast (error_mask hw) \<noteq> 0"
          by (rule "1.IH" [OF True Some refl refl refl refl refl refl ex p that a])
        with Some ex p [symmetric] show ?thesis
          by (subst program_loop.simps, subst (2) program_loop.simps) (simp add: f Let_def)
      qed
    qed
  qed
qed

lemma verify_loop_low24:
  "take_bit 24 dest = take_bit 24 dest' \<Longrightarrow>
   verify_loop g hw mem count i dest src s = verify_loop g hw mem count i dest' src s"
proof (induction g hw mem count i dest src s arbitrary: dest' rule: verify_loop.induct)
  case (1 g hw mem count i dest src s)
  let ?U = "S32K1XX_PROGMEM_DFLASH_WRITE_UNIT_SIZE g"
  note f = low24_fccob [OF "1.prems"]
  note a = low24_add [OF "1.prems", of ?U]
  show ?case
  proof (cases "i < count div ?U")
    case False
    then show ?thesis by (simp add: verify_loop_exit)
  next
    case True
    show ?thesis
    proof (cases "wait_ftfc_ready hw s")
      case None
      then show ?thesis
        by (subst verify_loop.simps, subst (2) verify_loop.simps) simp
    next
      case (Some s1)
      let ?s6 = "load_payload g hw mem 0xc src
           (putreg8 1 (S32K1XX_FTFC_FCCOB4 hw)
            (putreg8 (fccob3 dest) (S32K1XX_FTFC_FCCOB3 hw)
              (putreg8 (fccob2 dest) (S32K1XX_FTFC_FCCOB2 hw)
                (putreg8 (fccob1 dest) (S32K1XX_FTFC_FCCOB1 hw)
                  (putreg8 (S32K1XX_FTFC_PROGRAM_CHECK hw) (S32K1XX_FTFC_FCCOB0 hw)
                    (putreg8 (FTTC_FSTAT_FPVIOL hw OR FTTC_FSTAT_ACCERR hw OR FTTC_FSTAT_RDCOLERR hw)
                      (S32K1XX_FTFC_FSTAT hw) s1))))))"
      show ?thesis
      proof (cases "execute_ftfc_command hw ?s6")
        case None
        with Some show ?thesis
          by (subst verify_loop.simps, subst (2) verify_loop.simps) (simp add: f Let_def)
      next
        case ex: (Some p)
        obtain st s7 where p: "(st, s7) = p" by (cases p) simp
        have "verify_loop g hw mem count (i + 1) (dest + ?U) (src + ?U) s7
            = verify_loop g hw mem count (i + 1) (dest' + ?U) (src + ?U) s7"
          if "\<not> st AND ucast (error_mask hw) \<noteq> 0"
          by (rule "1.IH" [OF True Some refl refl refl refl refl refl refl ex p that a])
        with Some ex p [symmetric] show ?thesis
          by (subst verify_loop.simps, subst (2) verify_loop.simps) (simp add: f Let_def)
      qed
    qed
  qed
qed

lemma write_relative_in_region:
  assumes "S32K1XX_PROGMEM_START_ADDR g \<le> addr"
    and "addr - S32K1XX_PROGMEM_START_ADDR g < S32K1XX_PROGMEM_START_ADDR g"
  shows "up_progmem_write g hw mem addr buf count s
       = up_progmem_write g hw mem (addr - S32K1XX_PROGMEM_START_ADDR g) buf count s"
proof -
  let ?B = "S32K1XX_PROGMEM_START_ADDR g"
  from assms(1) have o1: "flash_offset g addr = addr - ?B" by (simp add: flash_offset_def)
  from assms(2) have "\<not> ?B \<le> addr - ?B" by (simp add: not_le)
  then have "flash_offset g (addr - ?B) = addr - ?B" by (simp add: flash_offset_def)
  with o1 have e: "flash_offset g (addr - ?B) = flash_offset g addr" by simp
  show ?thesis unfolding up_progmem_write_unfold e by (rule refl)
qed

section \<open>Geometry\<close>

text \<open>
  C1: for every page index \<open>p\<close> below the page count, converting the page to its base
  address and the address back to a page gives \<open>p\<close> again.  The two conditions on the
  constants say that the page size is not zero and that the flash region
  \<open>[START_ADDR, START_ADDR + PAGE_COUNT * PAGE_SIZE)\<close> lies inside the 32-bit address space,
  so that \<open>up_progmem_getaddress\<close> does not wrap around.
\<close>

theorem getpage_getaddress:
  assumes ps: "S32K1XX_PROGMEM_PAGE_SIZE g \<noteq> 0"
    and fits: "unat (S32K1XX_PROGMEM_START_ADDR g)
                 + unat (S32K1XX_PROGMEM_PAGE_COUNT g) * unat (S32K1XX_PROGMEM_PAGE_SIZE g) \<le> 2 ^ 32"
    and p: "p < S32K1XX_PROGMEM_PAGE_COUNT g"
  shows "up_progmem_getpage g (up_progmem_getaddress g p) = p"
proof -
  let ?B = "S32K1XX_PROGMEM_START_ADDR g" and ?S = "S32K1XX_PROGMEM_PAGE_SIZE g"
  let ?C = "S32K1XX_PROGMEM_PAGE_COUNT g"
  from ps have S0: "0 < unat ?S" by (simp add: unat_gt_0)
  from p have "unat p < unat ?C" by (simp add: word_less_nat_alt)
  with S0 have lt: "unat p * unat ?S < unat ?C * unat ?S" by (rule mult_less_mono1 [rotated])
  with fits have small: "unat ?B + unat p * unat ?S < 2 ^ 32" by linarith
  then have "unat p * unat ?S < 2 ^ LENGTH(32)" by simp
  then have m: "unat (p * ?S) = unat p * unat ?S" by (rule unat_mult_lem [THEN iffD1])
  with small have "unat ?B + unat (p * ?S) < 2 ^ LENGTH(32)" by simp
  then have a: "unat (?B + p * ?S) = unat ?B + unat (p * ?S)" by (rule unat_add_lem [THEN iffD1])
  then have ge: "?B \<le> ?B + p * ?S" by (simp add: word_le_nat_alt)
  have "unat ((p * ?S) div ?S) = unat p"
    using S0 by (simp add: unat_div m)
  then have "(p * ?S) div ?S = p" by (simp add: word_unat_eq_iff)
  with ge show ?thesis
    by (simp add: up_progmem_getpage_def up_progmem_getaddress_def)
qed

theorem getpage_getaddress_witness:
  "up_progmem_getpage progmem0 (up_progmem_getaddress progmem0 5) = 5"
  using getpage_getaddress [where g = progmem0 and p = 5] by (simp add: progmem0_def)

section \<open>Program: the count check\<close>

text \<open>
  C2: when \<open>count\<close> is not a multiple of the write unit, \<open>up_progmem_write\<close> returns
  \<open>-EINVAL\<close> and leaves the port as it was: no register has been read or written, and
  no status value has been consumed.
\<close>

theorem write_misaligned_count:
  assumes "S32K1XX_PROGMEM_DFLASH_WRITE_UNIT_SIZE g \<noteq> 0"
    and "count mod S32K1XX_PROGMEM_DFLASH_WRITE_UNIT_SIZE g \<noteq> 0"
  shows "up_progmem_write g hw mem addr buf count s = Some (Inl EINVAL, s)"
  using assms by (simp add: up_progmem_write_def Let_def)

theorem write_misaligned_count_witness:
  "up_progmem_write progmem0 ftfc0 (\<lambda>a. 0) 0 0x20000000 15 \<lparr>reads = [], trace = []\<rparr>
     = Some (Inl EINVAL, \<lparr>reads = [], trace = []\<rparr>)"
  using write_misaligned_count [where g = progmem0 and count = 15]
  by (simp add: progmem0_def)

section \<open>Erase\<close>

text \<open>
  C3: \<open>up_progmem_eraseblock\<close>, for any block index, returns \<open>-EIO\<close> when the decoded status
  of a command it ran has one of the bits operation error (MGSTAT0), protection violation,
  access error or read collision set, and returns the block size when none of them is set.
  Without \<open>FTFC_VERIFY_CHECK\<close> the erase command \<open>er\<close> is the only command; with it, the
  verify command \<open>vr\<close> follows a clean erase.  The controller completes each command
  (\<open>run_ok\<close>), so the call returns.
\<close>

theorem eraseblock_result:
  assumes "run_ok hw er" and "FTFC_VERIFY_CHECK g \<longrightarrow> run_ok hw vr"
    and "reads s = run_reads er @ (if FTFC_VERIFY_CHECK g then run_reads vr else []) @ rest"
  shows "map_option fst (up_progmem_eraseblock g hw block s)
     = Some (if failed hw (status er) \<or> (FTFC_VERIFY_CHECK g \<and> failed hw (status vr))
             then Inl EIO else Inr (S32K1XX_PROGMEM_BLOCK_SECTOR_SIZE g))"
proof -
  have "s = \<lparr>reads = run_reads er @ (if FTFC_VERIFY_CHECK g then run_reads vr else []) @ rest,
             trace = trace s\<rparr>"
    using assms(3) by (subst port_surj) simp
  then show ?thesis
    using eraseblock_run [of hw er g vr block rest "trace s"] assms(1,2) by simp
qed

theorem eraseblock_result_witness:
  "map_option fst (up_progmem_eraseblock progmem0 ftfc0 0
       \<lparr>reads = run_reads (prompt_run 0x80), trace = []\<rparr>) = Some (Inr 4096)
   \<and> map_option fst (up_progmem_eraseblock progmem0 ftfc0 0
       \<lparr>reads = run_reads (prompt_run 0x90), trace = []\<rparr>) = Some (Inl EIO)"
  using eraseblock_result [where hw = ftfc0 and g = progmem0 and block = 0 and rest = "[]"
      and er = "prompt_run 0x80" and s = "\<lparr>reads = run_reads (prompt_run 0x80), trace = []\<rparr>"]
    eraseblock_result [where hw = ftfc0 and g = progmem0 and block = 0 and rest = "[]"
      and er = "prompt_run 0x90" and s = "\<lparr>reads = run_reads (prompt_run 0x90), trace = []\<rparr>"]
  by (simp add: progmem0_def ftfc0_def prompt_run_def run_ok_def busy_def failed_def)

section \<open>The command executor\<close>

text \<open>
  C6: the launch step of \<open>execute_ftfc_command\<close> reads the status register, writes it back
  with the completion bit CCIF as 1 (which, by the controller's write-one-to-clear
  convention, sets the flag to 0), polls the register while the flag is clear (\<open>bs\<close>)
  until it is set again (\<open>r\<close>), and then reads the register once more; the value of that
  one read, \<open>st\<close>, is the status it returns.
\<close>

theorem execute_launch_protocol:
  assumes "list_all (busy hw) bs" and "\<not> busy hw r" and "reads s = v # bs @ r # st # rest"
  shows "execute_ftfc_command hw s =
       Some (ucast st,
         \<lparr>reads = rest,
          trace = trace s
            @ [Rd (S32K1XX_FTFC_FSTAT hw) v,
               Wr (S32K1XX_FTFC_FSTAT hw) (v OR FTTC_FSTAT_CCIF hw)]
            @ map (Rd (S32K1XX_FTFC_FSTAT hw)) bs
            @ [Rd (S32K1XX_FTFC_FSTAT hw) r, Rd (S32K1XX_FTFC_FSTAT hw) st]\<rparr>)
    \<and> (v OR FTTC_FSTAT_CCIF hw) AND FTTC_FSTAT_CCIF hw = FTTC_FSTAT_CCIF hw
    \<and> fstat_after_write v (v OR FTTC_FSTAT_CCIF hw) AND FTTC_FSTAT_CCIF hw = 0"
proof -
  have "(v OR FTTC_FSTAT_CCIF hw) AND FTTC_FSTAT_CCIF hw = FTTC_FSTAT_CCIF hw"
    by (simp add: bit_eq_iff bit_and_iff bit_or_iff)
  moreover have "fstat_after_write v (v OR FTTC_FSTAT_CCIF hw) AND FTTC_FSTAT_CCIF hw = 0"
    by (auto simp add: fstat_after_write_def bit_eq_iff bit_and_iff bit_or_iff bit_not_iff)
  ultimately show ?thesis
    using execute_ftfc_command_run [OF assms] by (simp add: launch_events_def poll_events_def)
qed

theorem execute_launch_protocol_witness:
  "execute_ftfc_command ftfc0 \<lparr>reads = [0x80, 0x00, 0x00, 0x80, 0x90], trace = []\<rparr> =
     Some (0x90,
       \<lparr>reads = [],
        trace = [Rd 0x40020000 0x80, Wr 0x40020000 0x80, Rd 0x40020000 0x00,
                 Rd 0x40020000 0x00, Rd 0x40020000 0x80, Rd 0x40020000 0x90]\<rparr>)"
  using execute_launch_protocol [where hw = ftfc0 and bs = "[0x00, 0x00]" and r = "0x80"
      and v = "0x80" and st = "0x90" and rest = "[]"
      and s = "\<lparr>reads = [0x80, 0x00, 0x00, 0x80, 0x90], trace = []\<rparr>"]
  by (simp add: ftfc0_def busy_def)

text \<open>
  C10: \<open>execute_ftfc_command\<close> returns the value of its final status read whatever that
  value is: the branch taken on an error bit and the fall-through return the same
  \<open>retval\<close>, so the result does not depend on which bits count as errors, and a caller
  must test the bits itself.
\<close>

theorem execute_returns_raw_status:
  assumes "list_all (busy hw) bs" and "\<not> busy hw r" and "reads s = v # bs @ r # st # rest"
  shows "map_option fst (execute_ftfc_command hw s) = Some (ucast st)
    \<and> execute_ftfc_command (hw\<lparr>FTTC_FSTAT_MGSTAT0 := a, FTTC_FSTAT_FPVIOL := b,
          FTTC_FSTAT_ACCERR := c, FTTC_FSTAT_RDCOLERR := d\<rparr>) s = execute_ftfc_command hw s"
  using execute_ftfc_command_run [OF assms]
  by (simp add: execute_ftfc_command_def wait_ftfc_ready_error_bits)

theorem execute_returns_raw_status_witness:
  "map_option fst (execute_ftfc_command ftfc0 \<lparr>reads = [0x80, 0x00, 0x80, 0x90], trace = []\<rparr>)
     = Some 0x90
   \<and> map_option fst (execute_ftfc_command ftfc0 \<lparr>reads = [0x80, 0x00, 0x80, 0x80], trace = []\<rparr>)
     = Some 0x80"
  using execute_returns_raw_status [where hw = ftfc0 and bs = "[0x00]" and r = "0x80"
      and v = "0x80" and st = "0x90" and rest = "[]"
      and s = "\<lparr>reads = [0x80, 0x00, 0x80, 0x90], trace = []\<rparr>"]
    execute_returns_raw_status [where hw = ftfc0 and bs = "[0x00]" and r = "0x80"
      and v = "0x80" and st = "0x80" and rest = "[]"
      and s = "\<lparr>reads = [0x80, 0x00, 0x80, 0x80], trace = []\<rparr>"]
  by (simp add: ftfc0_def busy_def)

section \<open>Erased check\<close>

text \<open>
  C7: for a page index at or beyond the page count, \<open>up_progmem_ispageerased\<close> returns
  \<open>-EFAULT\<close> whatever the memory holds (it reads none of it).  No other operation checks
  its index: \<open>up_progmem_pagesize\<close> and \<open>up_progmem_erasesize\<close> return their constants,
  \<open>up_progmem_getaddress\<close> computes an address, and \<open>up_progmem_eraseblock\<close> never returns
  \<open>-EFAULT\<close> for the same index.
\<close>

theorem ispageerased_invalid_page:
  assumes "S32K1XX_PROGMEM_PAGE_COUNT g \<le> page"
  shows "(\<forall>mem. up_progmem_ispageerased g mem page = Inl EFAULT)
    \<and> up_progmem_pagesize g page = S32K1XX_PROGMEM_PAGE_SIZE g
    \<and> up_progmem_erasesize g page = S32K1XX_PROGMEM_BLOCK_SECTOR_SIZE g
    \<and> up_progmem_getaddress g page
         = S32K1XX_PROGMEM_START_ADDR g + page * S32K1XX_PROGMEM_PAGE_SIZE g
    \<and> (\<forall>hw s s'. up_progmem_eraseblock g hw page s \<noteq> Some (Inl EFAULT, s'))"
  using assms
  by (auto simp: up_progmem_ispageerased_def up_progmem_pagesize_def up_progmem_erasesize_def
      up_progmem_getaddress_def dest: eraseblock_errors)

theorem ispageerased_invalid_page_witness:
  "up_progmem_ispageerased progmem0 mem1 32 = Inl EFAULT
   \<and> up_progmem_getaddress progmem0 32 = 0x10010000"
  using ispageerased_invalid_page [where g = progmem0 and page = 32]
  by (simp add: progmem0_def)

text \<open>
  C8, as the code has it: for a valid page, the scan starts at the page's base address
  and stops at the first byte that is not \<open>0xFF\<close>, at offset \<open>i\<close> (or at \<open>i = PAGE_SIZE\<close>
  when there is none); the result is \<open>PAGE_SIZE - i\<close>.  It is zero exactly when every byte
  of the page is \<open>0xFF\<close>; a positive result is the page size minus the offset of the first
  non-erased byte, that is the number of bytes from that byte to the end of the page.
\<close>

theorem ispageerased_scan_result:
  assumes "page < S32K1XX_PROGMEM_PAGE_COUNT g"
  shows "let p = up_progmem_getaddress g page;
             n = unat (S32K1XX_PROGMEM_PAGE_SIZE g);
             i = erased_scan g mem p 0
         in up_progmem_ispageerased g mem page = Inr (S32K1XX_PROGMEM_PAGE_SIZE g - of_nat i)
            \<and> i \<le> n
            \<and> (\<forall>j<i. mem (p + of_nat j) = 0xff)
            \<and> (i < n \<longrightarrow> mem (p + of_nat i) \<noteq> 0xff)
            \<and> unat (S32K1XX_PROGMEM_PAGE_SIZE g - of_nat i) = n - i
            \<and> ((S32K1XX_PROGMEM_PAGE_SIZE g - of_nat i = 0) = (\<forall>j<n. mem (p + of_nat j) = 0xff))"
proof -
  let ?S = "S32K1XX_PROGMEM_PAGE_SIZE g"
  let ?p = "up_progmem_getaddress g page"
  let ?i = "erased_scan g mem ?p 0"
  have sc: "?i \<le> unat ?S" "\<forall>j<?i. mem (?p + of_nat j) = 0xff"
    "?i < unat ?S \<longrightarrow> mem (?p + of_nat ?i) \<noteq> 0xff"
    using erased_scan_props [of 0 g mem ?p] by (simp_all add: Let_def)
  from sc(1) have ui: "unat (of_nat ?i :: uint32_t) = ?i" by (rule le_unat_uoi)
  with sc(1) have "(of_nat ?i :: uint32_t) \<le> ?S" by (simp add: word_le_nat_alt)
  then have sub: "unat (?S - of_nat ?i) = unat ?S - ?i" by (simp add: unat_sub ui)
  have "(?S - of_nat ?i = 0) = (unat (?S - of_nat ?i) = 0)" by (simp add: unat_eq_zero)
  also have "\<dots> = (?i = unat ?S)" using sc(1) sub by auto
  also have "\<dots> = (\<forall>j<unat ?S. mem (?p + of_nat j) = 0xff)"
    using sc by (metis nat_less_le)
  finally have z: "(?S - of_nat ?i = 0) = (\<forall>j<unat ?S. mem (?p + of_nat j) = 0xff)" .
  have "up_progmem_ispageerased g mem page = Inr (?S - of_nat ?i)"
    using assms by (simp add: up_progmem_ispageerased_def Let_def)
  with sc sub z show ?thesis by (simp add: Let_def)
qed

theorem ispageerased_scan_result_witness:
  "up_progmem_ispageerased progmem0 mem1 0 = Inr 2043"
  using ispageerased_scan_result [where g = progmem0 and page = 0 and mem = mem1]
  by (simp add: scan_mem1 Let_def) (simp add: progmem0_def)

text \<open>
  C8 as stated fails: with only the byte at offset 5 of page 0 programmed, the first
  non-erased byte is at offset 5, and the result is 2043, not 5.
\<close>

theorem ispageerased_offset_counterexample:
  "up_progmem_ispageerased progmem0 mem1 0 = Inr 2043
   \<and> up_progmem_ispageerased progmem0 mem1 0 \<noteq> Inr 5
   \<and> mem1 (up_progmem_getaddress progmem0 0 + 0) = 0xff
   \<and> mem1 (up_progmem_getaddress progmem0 0 + 1) = 0xff
   \<and> mem1 (up_progmem_getaddress progmem0 0 + 2) = 0xff
   \<and> mem1 (up_progmem_getaddress progmem0 0 + 3) = 0xff
   \<and> mem1 (up_progmem_getaddress progmem0 0 + 4) = 0xff
   \<and> mem1 (up_progmem_getaddress progmem0 0 + 5) \<noteq> 0xff"
  by (simp add: up_progmem_ispageerased_def scan_mem1 Let_def)
     (simp add: up_progmem_getaddress_def progmem0_def mem1_def)

section \<open>Program: command failures\<close>

text \<open>
  C5: in a write of several chunks, let the program commands of the first chunks \<open>rs\<close>
  complete without error and let the command of the next chunk \<open>r\<close> complete with the
  protection-violation bit FPVIOL set.  Then \<open>up_progmem_write\<close> returns \<open>-EIO\<close>, and the
  accesses it has made are those of the program commands for \<open>rs\<close> and \<open>r\<close> and nothing
  more: no command is issued for a later chunk, and the status values \<open>rest\<close> that the
  controller would show next are not read.
\<close>

theorem write_protection_violation:
  assumes "list_all (run_ok hw) rs" and "list_all (\<lambda>r. \<not> failed hw (status r)) rs"
    and "run_ok hw r" and "status r AND FTTC_FSTAT_FPVIOL hw \<noteq> 0"
    and "count mod S32K1XX_PROGMEM_DFLASH_WRITE_UNIT_SIZE g = 0"
    and "length rs < unat (count div S32K1XX_PROGMEM_DFLASH_WRITE_UNIT_SIZE g)"
    and "SMART_FS_DOUBLE_WRITE_WORKAROUND g
           \<longrightarrow> load32 mem (flash_offset g addr) \<noteq> load32 mem buf"
    and "reads s = concat (map run_reads (rs @ [r])) @ rest"
  shows "up_progmem_write g hw mem addr buf count s =
     Some (Inl EIO,
       \<lparr>reads = rest,
        trace = trace s
          @ program_events g hw mem (flash_offset g addr + 0x800000) buf (rs @ [r])\<rparr>)"
proof -
  have s: "s = \<lparr>reads = concat (map run_reads (rs @ [r])) @ rest, trace = trace s\<rparr>"
    using assms(8) by (subst port_surj) simp
  have "program_loop g hw mem count 0 (flash_offset g addr + 0x800000) buf s =
     Some (Some EIO, \<lparr>reads = rest,
        trace = trace s
          @ program_events g hw mem (flash_offset g addr + 0x800000) buf (rs @ [r])\<rparr>)"
    by (subst s, rule program_loop_runs_failed [OF assms(1,2,3) fpviol_failed [OF assms(4)] assms(6)])
  moreover from assms(7) have "\<not> (SMART_FS_DOUBLE_WRITE_WORKAROUND g
      \<and> load32 mem (flash_offset g addr) = load32 mem buf)"
    by blast
  ultimately show ?thesis
    using assms(5) by (auto simp add: up_progmem_write_unfold)
qed

theorem write_protection_violation_witness:
  "up_progmem_write progmem0 ftfc0 (\<lambda>a. 0) 0x10000000 0x20000000 24
       \<lparr>reads = run_reads (prompt_run 0x80) @ run_reads (prompt_run 0x90) @ [0x80, 0x80],
        trace = []\<rparr> =
     Some (Inl EIO,
       \<lparr>reads = [0x80, 0x80],
        trace = program_events progmem0 ftfc0 (\<lambda>a. 0) 0x800000 0x20000000
                  [prompt_run 0x80, prompt_run 0x90]\<rparr>)"
  using write_protection_violation [where g = progmem0 and hw = ftfc0 and mem = "\<lambda>a. 0"
      and addr = "0x10000000" and buf = "0x20000000" and count = 24
      and rs = "[prompt_run 0x80]" and r = "prompt_run 0x90" and rest = "[0x80, 0x80]"
      and s = "\<lparr>reads = run_reads (prompt_run 0x80) @ run_reads (prompt_run 0x90) @ [0x80, 0x80],
               trace = []\<rparr>"]
  by (simp add: progmem0_def ftfc0_def prompt_run_def run_ok_def busy_def failed_def
      flash_offset_def)

text \<open>
  C4: with \<open>FTFC_VERIFY_CHECK\<close> compiled in, let every chunk be programmed without error
  (\<open>ps\<close>), let the program-check commands of the first chunks \<open>vs\<close> pass and the one of the
  next chunk \<open>v\<close> report an error status.  Then \<open>up_progmem_write\<close> stops verifying and
  returns the full \<open>count\<close>, as it does on success.
\<close>

theorem write_verify_failure_returns_count:
  assumes "FTFC_VERIFY_CHECK g"
    and "list_all (run_ok hw) ps" and "list_all (\<lambda>r. \<not> failed hw (status r)) ps"
    and "length ps = unat (count div S32K1XX_PROGMEM_DFLASH_WRITE_UNIT_SIZE g)"
    and "list_all (run_ok hw) vs" and "list_all (\<lambda>r. \<not> failed hw (status r)) vs"
    and "run_ok hw v" and "failed hw (status v)"
    and "length vs < unat (count div S32K1XX_PROGMEM_DFLASH_WRITE_UNIT_SIZE g)"
    and "count mod S32K1XX_PROGMEM_DFLASH_WRITE_UNIT_SIZE g = 0"
    and "SMART_FS_DOUBLE_WRITE_WORKAROUND g
           \<longrightarrow> load32 mem (flash_offset g addr) \<noteq> load32 mem buf"
    and "reads s = concat (map run_reads ps) @ concat (map run_reads (vs @ [v])) @ rest"
  shows "up_progmem_write g hw mem addr buf count s =
     Some (Inr count,
       \<lparr>reads = rest,
        trace = trace s
          @ program_events g hw mem (flash_offset g addr + 0x800000) buf ps
          @ check_events g hw mem (flash_offset g addr + 0x800000) buf (vs @ [v])\<rparr>)"
proof -
  let ?d = "flash_offset g addr + 0x800000"
  have s: "s = \<lparr>reads = concat (map run_reads ps) @ concat (map run_reads (vs @ [v])) @ rest,
                 trace = trace s\<rparr>"
    using assms(12) by (subst port_surj) simp
  have p: "program_loop g hw mem count 0 ?d buf s =
     Some (None, \<lparr>reads = concat (map run_reads (vs @ [v])) @ rest,
                  trace = trace s @ program_events g hw mem ?d buf ps\<rparr>)"
    by (subst s, rule program_loop_runs_all [OF assms(2,3,4)])
  have v: "verify_loop g hw mem count 0 ?d buf
        \<lparr>reads = concat (map run_reads (vs @ [v])) @ rest,
         trace = trace s @ program_events g hw mem ?d buf ps\<rparr> =
     Some (Some count, \<lparr>reads = rest,
        trace = (trace s @ program_events g hw mem ?d buf ps)
                  @ check_events g hw mem ?d buf (vs @ [v])\<rparr>)"
    by (rule verify_loop_runs_failed [OF assms(5,6,7,8,9)])
  from assms(11) have "\<not> (SMART_FS_DOUBLE_WRITE_WORKAROUND g
      \<and> load32 mem (flash_offset g addr) = load32 mem buf)"
    by blast
  with assms(1,10) p v show ?thesis
    by (auto simp add: up_progmem_write_unfold)
qed

theorem write_verify_failure_returns_count_witness:
  "up_progmem_write (progmem0\<lparr>FTFC_VERIFY_CHECK := True\<rparr>) ftfc0 (\<lambda>a. 0) 0 0x20000000 16
       \<lparr>reads = run_reads (prompt_run 0x80) @ run_reads (prompt_run 0x80)
                 @ run_reads (prompt_run 0x80) @ run_reads (prompt_run 0x81),
        trace = []\<rparr> =
     Some (Inr 16,
       \<lparr>reads = [],
        trace =
          program_events (progmem0\<lparr>FTFC_VERIFY_CHECK := True\<rparr>) ftfc0 (\<lambda>a. 0)
              0x800000 0x20000000 [prompt_run 0x80, prompt_run 0x80]
          @ check_events (progmem0\<lparr>FTFC_VERIFY_CHECK := True\<rparr>) ftfc0 (\<lambda>a. 0)
              0x800000 0x20000000 [prompt_run 0x80, prompt_run 0x81]\<rparr>)"
  using write_verify_failure_returns_count [where g = "progmem0\<lparr>FTFC_VERIFY_CHECK := True\<rparr>"
      and hw = ftfc0 and mem = "\<lambda>a. 0" and addr = 0 and buf = "0x20000000" and count = 16
      and ps = "[prompt_run 0x80, prompt_run 0x80]"
      and vs = "[prompt_run 0x80]" and v = "prompt_run 0x81" and rest = "[]"
      and s = "\<lparr>reads = run_reads (prompt_run 0x80) @ run_reads (prompt_run 0x80)
                 @ run_reads (prompt_run 0x80) @ run_reads (prompt_run 0x81),
               trace = []\<rparr>"]
  by (simp add: progmem0_def ftfc0_def prompt_run_def run_ok_def busy_def failed_def
      flash_offset_def)

section \<open>Program: absolute and relative addresses\<close>

text \<open>
  C9: for every address \<open>addr \<ge> START_ADDR\<close>, every buffer and every count, writing at
  \<open>addr\<close> and writing at \<open>addr - START_ADDR\<close> make the same register accesses, read the same
  status values and return the same result.  The two conditions are on the constants of
  the absent header only.  \<open>START_ADDR\<close> is a multiple of \<open>2^24\<close>: the driver sends the
  controller the three low bytes of \<open>dest.addr\<close>, and its erase path (lines 247 and 248)
  subtracts \<open>START_ADDR\<close> from a block offset before doing so, which addresses the block the
  write path programs only for such a base.  The double-write workaround, which reads
  memory at the offset, is compiled out.  For \<open>addr - START_ADDR < START_ADDR\<close> neither
  condition is needed (\<open>write_relative_in_region\<close>).
\<close>

theorem write_absolute_or_relative:
  assumes "S32K1XX_PROGMEM_START_ADDR g \<le> addr"
    and "take_bit 24 (S32K1XX_PROGMEM_START_ADDR g) = 0"
    and "\<not> SMART_FS_DOUBLE_WRITE_WORKAROUND g"
  shows "up_progmem_write g hw mem addr buf count s
       = up_progmem_write g hw mem (addr - S32K1XX_PROGMEM_START_ADDR g) buf count s"
proof -
  let ?B = "S32K1XX_PROGMEM_START_ADDR g"
  from assms(1) have o1: "flash_offset g addr = addr - ?B" by (simp add: flash_offset_def)
  have "take_bit 24 (addr - ?B - ?B) = take_bit 24 (addr - ?B)"
    by (rule low24_diff [OF assms(2)])
  moreover have "flash_offset g (addr - ?B) = addr - ?B - ?B
      \<or> flash_offset g (addr - ?B) = addr - ?B"
    unfolding flash_offset_def by (rule if_split [THEN iffD2]) blast
  ultimately have "take_bit 24 (flash_offset g (addr - ?B)) = take_bit 24 (flash_offset g addr)"
    unfolding o1 by (elim disjE) (simp_all only:)
  then have d: "take_bit 24 (flash_offset g addr + 0x800000)
              = take_bit 24 (flash_offset g (addr - ?B) + 0x800000)"
    by (rule low24_add [symmetric])
  have p: "program_loop g hw mem count 0 (flash_offset g addr + 0x800000) buf
         = program_loop g hw mem count 0 (flash_offset g (addr - ?B) + 0x800000) buf"
    by (rule ext, rule program_loop_low24 [OF d])
  have v: "verify_loop g hw mem count 0 (flash_offset g addr + 0x800000) buf
         = verify_loop g hw mem count 0 (flash_offset g (addr - ?B) + 0x800000) buf"
    by (rule ext, rule verify_loop_low24 [OF d])
  from assms(3) show ?thesis
    unfolding up_progmem_write_unfold p v by simp
qed

theorem write_absolute_or_relative_witness:
  "up_progmem_write progmem0 ftfc0 mem1 0x10000008 0x20001000 16
       \<lparr>reads = run_reads (prompt_run 0x80) @ run_reads (prompt_run 0x80), trace = []\<rparr>
   = up_progmem_write progmem0 ftfc0 mem1 0x8 0x20001000 16
       \<lparr>reads = run_reads (prompt_run 0x80) @ run_reads (prompt_run 0x80), trace = []\<rparr>"
  using write_absolute_or_relative [where g = progmem0 and addr = "0x10000008" and hw = ftfc0
      and mem = mem1 and buf = "0x20001000" and count = 16
      and s = "\<lparr>reads = run_reads (prompt_run 0x80) @ run_reads (prompt_run 0x80), trace = []\<rparr>"]
  by (simp add: progmem0_def)

end
